theory Spec2Isabelle
  imports Main
begin

section \<open>The HelmChart controller of clusternet: data model\<close>

text \<open>
  The development embeds \<^verbatim>\<open>pkg/controllers/apps/helmchart/helmchart.go\<close>: the three
  notification handlers, the worker's \<^verbatim>\<open>processNextWorkItem\<close> and \<^verbatim>\<open>syncHandler\<close>,
  \<^verbatim>\<open>UpdateChartStatus\<close> and \<^verbatim>\<open>Run\<close>.

  The API type \<^verbatim>\<open>appsapi.HelmChart\<close> is declared outside this file. The controller reads
  the namespace and name of its metadata, and its \<^verbatim>\<open>Spec\<close> and \<^verbatim>\<open>Status\<close>; the types of
  the latter two are parameters. \<^verbatim>\<open>ResourceVersion\<close> stands for the metadata the
  controller never looks at. \<^verbatim>\<open>reflect.DeepEqual\<close> on two specs is equality on \<open>'spec\<close>.
\<close>

record ('spec, 'status) HelmChart =
  Namespace :: string
  Name :: string
  ResourceVersion :: string
  Spec :: 'spec
  Status :: 'status

text \<open>
  A notification payload is an \<^verbatim>\<open>interface{}\<close>. Its dynamic type is a pointer to a
  HelmChart (\<open>None\<close> is the nil pointer), a \<^verbatim>\<open>cache.DeletedFinalStateUnknown\<close> (the
  tombstone: a key and the last known object), or anything else.
\<close>

datatype ('spec, 'status) object =
    HelmChartPtr "('spec, 'status) HelmChart option"
  | DeletedFinalStateUnknown string "('spec, 'status) object"
  | OtherObject nat

text \<open>An item of the work queue is an \<^verbatim>\<open>interface{}\<close> too: a string, or anything else.\<close>

datatype item = StringItem string | OtherItem nat

text \<open>
  Errors: an API status error carries a reason (\<^verbatim>\<open>errors.IsNotFound\<close> and
  \<^verbatim>\<open>errors.IsConflict\<close> test it), \<^verbatim>\<open>fmt.Errorf\<close> builds an error from its message, and
  \<^verbatim>\<open>wait.ErrWaitTimeout\<close> is the sentinel of the backoff loop. Where the format has a
  \<^verbatim>\<open>%#v\<close> of a payload, the message is kept without the rendering of the payload.
\<close>

datatype reason = NotFound | Conflict | OtherReason

datatype error = StatusError reason string | Errorf string | ErrWaitTimeout

fun Error :: "error \<Rightarrow> string" where
  "Error (StatusError r msg) = msg"
| "Error (Errorf msg) = msg"
| "Error ErrWaitTimeout = ''timed out waiting for the condition''"

fun IsNotFound :: "error \<Rightarrow> bool" where
  "IsNotFound (StatusError r msg) = (r = NotFound)"
| "IsNotFound e = False"

fun IsConflict :: "error \<Rightarrow> bool" where
  "IsConflict (StatusError r msg) = (r = Conflict)"
| "IsConflict e = False"

text \<open>
  A Go panic ends the call: the two kinds the controller can raise itself, and the value
  a collaborator it calls panics with.
\<close>

datatype panic = InterfaceConversion | NilPointerDereference | PanicValue string

text \<open>
  What the controller does to its collaborators is recorded as a trace of calls, in the
  order the code makes them: the four operations of the work queue it uses,
  \<^verbatim>\<open>utilruntime.HandleError\<close>, the pluggable \<^verbatim>\<open>SyncHandler\<close>, and, for
  \<^verbatim>\<open>UpdateChartStatus\<close>, the status write with the object submitted. Output of
  \<^verbatim>\<open>klog\<close> is not part of the trace.
\<close>

datatype 'c event =
    Add item
  | AddRateLimited item
  | Forget item
  | Done item
  | HandleError error
  | SyncHandlerCalled 'c
  | UpdateStatusCalled 'c

section \<open>Keys\<close>

text \<open>
  Modelled from the spec: \<^verbatim>\<open>cache.MetaNamespaceKeyFunc\<close> and
  \<^verbatim>\<open>cache.SplitMetaNamespaceKey\<close> of client-go, which the file imports. The key of a
  resource is \<^verbatim>\<open>namespace/name\<close>, or the bare name when the namespace is empty, and it
  splits back into namespace and name; a key with more than one separator is malformed.
  The accessor methods of a nil HelmChart pointer dereference it, which panics.
\<close>

definition MetaNamespaceKeyFunc ::
  "('spec, 'status) HelmChart option \<Rightarrow> panic + (error + string)" where
  "MetaNamespaceKeyFunc chart =
     (case chart of
        None \<Rightarrow> Inl NilPointerDereference
      | Some c \<Rightarrow>
          if length (Namespace c) > 0 then Inr (Inr (Namespace c @ ''/'' @ Name c))
          else Inr (Inr (Name c)))"

fun Split :: "char \<Rightarrow> string \<Rightarrow> string list" where
  "Split sep [] = [[]]"
| "Split sep (c # cs) =
     (if c = sep then [] # Split sep cs
      else (case Split sep cs of [] \<Rightarrow> [[c]] | p # ps \<Rightarrow> (c # p) # ps))"

definition SplitMetaNamespaceKey :: "string \<Rightarrow> error + (string \<times> string)" where
  "SplitMetaNamespaceKey key =
     (case Split (CHR ''/'') key of
        [name] \<Rightarrow> Inr ([], name)
      | [ns, name] \<Rightarrow> Inr (ns, name)
      | _ \<Rightarrow> Inl (Errorf (''unexpected key format: '' @ key)))"

section \<open>The notification handlers\<close>

text \<open>
  \<^verbatim>\<open>enqueue\<close> turns a HelmChart into its key and adds the key to the work queue; an
  error of the key function is reported and nothing is added.
\<close>

definition enqueue ::
  "('spec, 'status) HelmChart option \<Rightarrow> panic + ('spec, 'status) HelmChart event list" where
  "enqueue chart =
     (case MetaNamespaceKeyFunc chart of
        Inl p \<Rightarrow> Inl p
      | Inr (Inl err) \<Rightarrow> Inr [HandleError err]
      | Inr (Inr key) \<Rightarrow> Inr [Add (StringItem key)])"

text \<open>
  The type assertion \<^verbatim>\<open>obj.(*appsapi.HelmChart)\<close> in its two forms: with one result it
  panics on another dynamic type; with two results it returns the zero value (the nil
  pointer) and \<open>False\<close>. Likewise for \<^verbatim>\<open>obj.(cache.DeletedFinalStateUnknown)\<close>, whose
  zero value has an empty key and a nil \<^verbatim>\<open>Obj\<close> (here \<open>OtherObject 0\<close>).
\<close>

fun assertHelmChart ::
  "('spec, 'status) object \<Rightarrow> panic + ('spec, 'status) HelmChart option" where
  "assertHelmChart (HelmChartPtr p) = Inr p"
| "assertHelmChart obj = Inl InterfaceConversion"

fun assertHelmChartOk ::
  "('spec, 'status) object \<Rightarrow> ('spec, 'status) HelmChart option \<times> bool" where
  "assertHelmChartOk (HelmChartPtr p) = (p, True)"
| "assertHelmChartOk obj = (None, False)"

fun assertTombstoneOk ::
  "('spec, 'status) object \<Rightarrow> (string \<times> ('spec, 'status) object) \<times> bool" where
  "assertTombstoneOk (DeletedFinalStateUnknown key obj) = ((key, obj), True)"
| "assertTombstoneOk obj = (([], OtherObject 0), False)"

definition addHelmChart ::
  "('spec, 'status) object \<Rightarrow> panic + ('spec, 'status) HelmChart event list" where
  "addHelmChart obj =
     (case assertHelmChart obj of
        Inl p \<Rightarrow> Inl p
      | Inr chart \<Rightarrow> enqueue chart)"

text \<open>
  \<^verbatim>\<open>updateHelmChart\<close> asserts both payloads, reads both specs (a nil pointer panics
  there) and enqueues the new object unless the specs are deeply equal.
\<close>

definition updateHelmChart ::
  "('spec, 'status) object \<Rightarrow> ('spec, 'status) object \<Rightarrow>
     panic + ('spec, 'status) HelmChart event list" where
  "updateHelmChart old cur =
     (case assertHelmChart old of
        Inl p \<Rightarrow> Inl p
      | Inr oldChart \<Rightarrow>
          (case assertHelmChart cur of
             Inl p \<Rightarrow> Inl p
           | Inr newChart \<Rightarrow>
               (case oldChart of
                  None \<Rightarrow> Inl NilPointerDereference
                | Some oc \<Rightarrow>
                    (case newChart of
                       None \<Rightarrow> Inl NilPointerDereference
                     | Some nc \<Rightarrow>
                         if Spec oc = Spec nc then Inr []
                         else enqueue newChart))))"

text \<open>
  \<^verbatim>\<open>deleteHelmChart\<close>: \<open>chart\<close> is bound by the first assertion only. When the payload
  is a tombstone, the second assertion on \<^verbatim>\<open>tombstone.Obj\<close> keeps nothing but its
  \<open>ok\<close> (the source assigns the object to \<^verbatim>\<open>_\<close>), so \<open>chart\<close> is still the nil pointer
  when \<^verbatim>\<open>enqueue\<close> is called. (The log line before it passes the same pointer to
  \<^verbatim>\<open>klog.KObj\<close>; if that dereferences it, the panic is the same one, a call earlier.)
\<close>

definition deleteHelmChart ::
  "('spec, 'status) object \<Rightarrow> panic + ('spec, 'status) HelmChart event list" where
  "deleteHelmChart obj =
     (case assertHelmChartOk obj of (chart, ok) \<Rightarrow>
        if \<not> ok then
          (case assertTombstoneOk obj of (tombstone, ok) \<Rightarrow>
             if \<not> ok then
               Inr [HandleError (Errorf ''couldn't get object from tombstone '')]
             else
               (case assertHelmChartOk (snd tombstone) of (_, ok) \<Rightarrow>
                  if \<not> ok then
                    Inr [HandleError
                           (Errorf ''tombstone contained object that is not a HelmChart '')]
                  else enqueue chart))
        else enqueue chart)"

section \<open>The worker\<close>

text \<open>
  What the worker needs of the controller: the lister of the Local Read Cache
  (\<^verbatim>\<open>c.helmChartLister.HelmCharts(ns).Get(name)\<close>, an error or the object found) and the
  pluggable \<^verbatim>\<open>c.SyncHandler\<close> (\<open>None\<close> is the nil error). Both are code the controller
  calls and does not own: either may panic instead of returning.
\<close>

record ('spec, 'status) Controller =
  helmChartLister :: "string \<Rightarrow> string \<Rightarrow> panic + (error + ('spec, 'status) HelmChart)"
  SyncHandler :: "('spec, 'status) HelmChart \<Rightarrow> panic + error option"

text \<open>
  \<^verbatim>\<open>syncHandler\<close> returns the calls it made and how it ended: with a panic of a
  collaborator, or with the error it returns.
\<close>

definition syncHandler ::
  "('spec, 'status) Controller \<Rightarrow> string \<Rightarrow>
     ('spec, 'status) HelmChart event list \<times> (panic + error option)" where
  "syncHandler c key =
     (case SplitMetaNamespaceKey key of
        Inl err \<Rightarrow> ([HandleError (Errorf (''invalid resource key: '' @ key))], Inr None)
      | Inr (ns, name) \<Rightarrow>
          (case helmChartLister c ns name of
             Inl p \<Rightarrow> ([], Inl p)
           | Inr (Inl err) \<Rightarrow>
               if IsNotFound err then ([], Inr None) else ([], Inr (Some err))
           | Inr (Inr chart) \<Rightarrow> ([SyncHandlerCalled chart], SyncHandler c chart)))"

text \<open>
  The error \<^verbatim>\<open>fmt.Errorf("error syncing '%s': %s, requeuing", key, err.Error())\<close>.
\<close>

definition errorSyncing :: "string \<Rightarrow> error \<Rightarrow> error" where
  "errorSyncing key err =
     Errorf (''error syncing '' @ [CHR 0x27] @ key @ [CHR 0x27] @ '': '' @ Error err
             @ '', requeuing'')"

text \<open>
  The function literal of \<^verbatim>\<open>processNextWorkItem\<close>. Its deferred
  \<^verbatim>\<open>c.workqueue.Done(obj)\<close> runs on every exit, after every other call it makes: when
  the literal returns, and when a panic of \<^verbatim>\<open>c.syncHandler(key)\<close> unwinds through it.
  On the panic exit the statements after the call are skipped, so neither
  \<^verbatim>\<open>AddRateLimited\<close> nor \<^verbatim>\<open>Forget\<close> is called, and the panic goes on to the caller.
\<close>

definition processNextWorkItem_func ::
  "('spec, 'status) Controller \<Rightarrow> item \<Rightarrow>
     ('spec, 'status) HelmChart event list \<times> (panic + error option)" where
  "processNextWorkItem_func c obj =
     (case (case obj of
              OtherItem x \<Rightarrow>
                ([Forget obj, HandleError (Errorf ''expected string in workqueue but got '')],
                 Inr None)
            | StringItem key \<Rightarrow>
                (case syncHandler c key of
                   (evs, Inl p) \<Rightarrow> (evs, Inl p)
                 | (evs, Inr (Some err)) \<Rightarrow>
                     (evs @ [AddRateLimited (StringItem key)],
                      Inr (Some (errorSyncing key err)))
                 | (evs, Inr None) \<Rightarrow> (evs @ [Forget obj], Inr None)))
      of (evs, r) \<Rightarrow> (evs @ [Done obj], r))"

text \<open>
  \<^verbatim>\<open>processNextWorkItem\<close> is given what \<^verbatim>\<open>c.workqueue.Get()\<close> returned: the item and
  the shutdown flag. It recovers from nothing: a panic of the literal is its own.
\<close>

definition processNextWorkItem ::
  "('spec, 'status) Controller \<Rightarrow> item \<times> bool \<Rightarrow>
     ('spec, 'status) HelmChart event list \<times> (panic + bool)" where
  "processNextWorkItem c got =
     (case got of (obj, shutdown) \<Rightarrow>
        if shutdown then ([], Inr False)
        else
          (case processNextWorkItem_func c obj of
             (evs, Inl p) \<Rightarrow> (evs, Inl p)
           | (evs, Inr (Some err)) \<Rightarrow> (evs @ [HandleError err], Inr True)
           | (evs, Inr None) \<Rightarrow> (evs, Inr True)))"

text \<open>
  \<^verbatim>\<open>runWorker\<close> calls \<^verbatim>\<open>processNextWorkItem\<close> until it returns false. The loop is run
  on the successive results of \<^verbatim>\<open>Get\<close>; it ends with a panic, or with a flag that says
  whether the loop has returned (\<open>False\<close>: the results are used up and the worker waits
  in \<^verbatim>\<open>Get\<close>).
\<close>

fun runWorker ::
  "('spec, 'status) Controller \<Rightarrow> (item \<times> bool) list \<Rightarrow>
     ('spec, 'status) HelmChart event list \<times> (panic + bool)" where
  "runWorker c [] = ([], Inr False)"
| "runWorker c (got # gots) =
     (case processNextWorkItem c got of
        (evs, Inl p) \<Rightarrow> (evs, Inl p)
      | (evs, Inr True) \<Rightarrow> (case runWorker c gots of (evs', r) \<Rightarrow> (evs @ evs', r))
      | (evs, Inr False) \<Rightarrow> (evs, Inr True))"

section \<open>Startup\<close>

text \<open>
  \<^verbatim>\<open>Run\<close>, as the sequence of its calls. \<open>synced\<close> is what
  \<^verbatim>\<open>cache.WaitForCacheSync(stopCh, c.helmChartSynced)\<close> returns; \<open>StartWorker i\<close> is the
  \<^verbatim>\<open>go wait.Until(c.runWorker, time.Second, stopCh)\<close> of iteration \<open>i\<close>; the deferred
  calls run last, in reverse order of their registration.
\<close>

datatype run_event = WaitForCacheSync | StartWorker nat | ReceiveStop | ShutDown | HandleCrash

definition Run :: "bool \<Rightarrow> int \<Rightarrow> run_event list" where
  "Run synced workers =
     [WaitForCacheSync]
     @ (if \<not> synced then []
        else map StartWorker [0 ..< nat workers] @ [ReceiveStop])
     @ [ShutDown, HandleCrash]"

section \<open>Writing the status back\<close>

text \<open>
  \<^verbatim>\<open>UpdateChartStatus\<close> assigns through the pointer it is given, so here objects live
  in a heap, a list indexed by address; \<^verbatim>\<open>DeepCopy\<close> allocates at the end. The lister
  hands out the address of the object the cache owns. Reading through an address outside
  the heap is the nil dereference.

  The API server and the cache change between attempts: \<open>UpdateStatus n obj\<close> is the
  answer to the write number \<open>n\<close> of this call when \<open>obj\<close> is submitted, and
  \<open>Get n ns name\<close> what the lister returns after that write.
\<close>

record ('spec, 'status) Cluster =
  UpdateStatus :: "nat \<Rightarrow> ('spec, 'status) HelmChart \<Rightarrow> error option"
  Get :: "nat \<Rightarrow> string \<Rightarrow> string \<Rightarrow> error + nat"

record ('spec, 'status) ustate =
  heap :: "('spec, 'status) HelmChart list"
  cur :: nat
  calls :: nat
  events :: "('spec, 'status) HelmChart event list"

text \<open>
  The error
  \<^verbatim>\<open>fmt.Errorf("error getting updated HelmChart %q from lister: %v", chart.Name, err)\<close>;
  the name is quoted without escapes.
\<close>

definition errorGettingUpdated :: "string \<Rightarrow> error \<Rightarrow> error" where
  "errorGettingUpdated name err =
     Errorf (''error getting updated HelmChart '' @ [CHR 0x22] @ name @ [CHR 0x22]
             @ '' from lister: '' @ Error err)"

text \<open>
  The function literal passed to \<^verbatim>\<open>retry.RetryOnConflict\<close>; \<open>cur\<close> is its captured
  variable \<^verbatim>\<open>chart\<close>. The \<^verbatim>\<open>err\<close> it returns is the one of the write: the \<^verbatim>\<open>err\<close> of
  the lister is local to the \<^verbatim>\<open>if\<close> statement.
\<close>

definition UpdateChartStatus_func ::
  "('spec, 'status) Cluster \<Rightarrow> 'status option \<Rightarrow> ('spec, 'status) ustate \<Rightarrow>
     panic + (error option \<times> ('spec, 'status) ustate)" where
  "UpdateChartStatus_func env status s =
     (case status of
        None \<Rightarrow> Inl NilPointerDereference
      | Some st \<Rightarrow>
          if \<not> cur s < length (heap s) then Inl NilPointerDereference
          else
            (let h1 = (heap s)[cur s := (heap s ! cur s)\<lparr>Status := st\<rparr>];
                 obj = h1 ! cur s;
                 s1 = s\<lparr>heap := h1, calls := Suc (calls s),
                         events := events s @ [UpdateStatusCalled obj]\<rparr>
             in case UpdateStatus env (calls s) obj of
                  None \<Rightarrow> Inr (None, s1)
                | Some err \<Rightarrow>
                    (case Get env (calls s) (Namespace obj) (Name obj) of
                       Inr updated \<Rightarrow>
                         if \<not> updated < length h1 then Inl NilPointerDereference
                         else Inr (Some err,
                                   s1\<lparr>heap := h1 @ [h1 ! updated], cur := length h1\<rparr>)
                     | Inl gerr \<Rightarrow>
                         Inr (Some err,
                              s1\<lparr>events := events s1 @
                                   [HandleError (errorGettingUpdated (Name obj) gerr)]\<rparr>))))"

text \<open>
  Modelled from the spec: the retry driver \<^verbatim>\<open>retry.RetryOnConflict\<close> with the budget
  \<^verbatim>\<open>retry.DefaultRetry\<close>, which come from client-go. The write is retried on a conflict
  error up to a bounded count; exceeding the budget surfaces the last conflict error;
  success and any other error end the loop at once. The shape is the library's:
  \<^verbatim>\<open>wait.ExponentialBackoff\<close> runs a condition at most \<open>Steps\<close> times and times out,
  \<^verbatim>\<open>retry.OnError\<close> remembers the last retriable error and returns it on a timeout.
  \<^verbatim>\<open>DefaultRetry\<close> has five steps; the delays between them are not modelled.
\<close>

fun ExponentialBackoff ::
  "nat \<Rightarrow> ('s \<Rightarrow> panic + ((bool \<times> error option) \<times> 's)) \<Rightarrow> 's \<Rightarrow>
     panic + (error option \<times> 's)" where
  "ExponentialBackoff 0 condition s = Inr (Some ErrWaitTimeout, s)"
| "ExponentialBackoff (Suc n) condition s =
     (case condition s of
        Inl p \<Rightarrow> Inl p
      | Inr ((ok, err), s') \<Rightarrow>
          if err \<noteq> None \<or> ok then Inr (err, s')
          else if Suc n = 1 then Inr (Some ErrWaitTimeout, s')
          else ExponentialBackoff n condition s')"

definition OnError ::
  "nat \<Rightarrow> (error \<Rightarrow> bool) \<Rightarrow> ('s \<Rightarrow> panic + (error option \<times> 's)) \<Rightarrow> 's \<Rightarrow>
     panic + (error option \<times> 's)" where
  "OnError steps retriable fn s =
     (case ExponentialBackoff steps
             (\<lambda>(lastErr, t).
                case fn t of
                  Inl p \<Rightarrow> Inl p
                | Inr (None, t') \<Rightarrow> Inr ((True, None), (lastErr, t'))
                | Inr (Some err, t') \<Rightarrow>
                    if retriable err then Inr ((False, None), (Some err, t'))
                    else Inr ((False, Some err), (lastErr, t')))
             (None, s) of
        Inl p \<Rightarrow> Inl p
      | Inr (err, (lastErr, s')) \<Rightarrow>
          Inr (if err = Some ErrWaitTimeout then lastErr else err, s'))"

definition RetryOnConflict ::
  "nat \<Rightarrow> ('s \<Rightarrow> panic + (error option \<times> 's)) \<Rightarrow> 's \<Rightarrow> panic + (error option \<times> 's)" where
  "RetryOnConflict steps fn s = OnError steps IsConflict fn s"

definition DefaultRetry :: nat where
  "DefaultRetry = 5"

text \<open>
  \<^verbatim>\<open>UpdateChartStatus\<close> reads \<^verbatim>\<open>chart.Name\<close> for its log line first, then runs the
  function literal under the retry driver. It is given the heap, the pointer \<open>chart\<close>
  (\<open>None\<close>: nil) and the pointer \<open>status\<close>.
\<close>

definition UpdateChartStatus ::
  "('spec, 'status) Cluster \<Rightarrow> ('spec, 'status) HelmChart list \<Rightarrow> nat option \<Rightarrow>
     'status option \<Rightarrow> panic + (error option \<times> ('spec, 'status) ustate)" where
  "UpdateChartStatus env h chart status =
     (case chart of
        None \<Rightarrow> Inl NilPointerDereference
      | Some a \<Rightarrow>
          if \<not> a < length h then Inl NilPointerDereference
          else RetryOnConflict DefaultRetry (UpdateChartStatus_func env status)
                 \<lparr>heap = h, cur = a, calls = 0, events = []\<rparr>)"

section \<open>Reading the traces\<close>

text \<open>
  The calls that settle a claimed item: the two terminal dispositions and \<^verbatim>\<open>Done\<close>.
\<close>

fun isRelease :: "'c event \<Rightarrow> bool" where
  "isRelease (Forget x) = True"
| "isRelease (AddRateLimited x) = True"
| "isRelease (Done x) = True"
| "isRelease e = False"

text \<open>The two terminal dispositions alone.\<close>

fun isDisposition :: "'c event \<Rightarrow> bool" where
  "isDisposition (Forget x) = True"
| "isDisposition (AddRateLimited x) = True"
| "isDisposition e = False"

fun isStartWorker :: "run_event \<Rightarrow> bool" where
  "isStartWorker (StartWorker i) = True"
| "isStartWorker e = False"

text \<open>The objects submitted by the status writes of a trace, in order.\<close>

fun writes :: "'c event list \<Rightarrow> 'c list" where
  "writes [] = []"
| "writes (UpdateStatusCalled obj # evs) = obj # writes evs"
| "writes (e # evs) = writes evs"

section \<open>The status persister as the specification words it\<close>

text \<open>
  The optimistic-concurrency loop of the specification, on values instead of pointers:
  its state is the attempt number, the budget left and the current snapshot. Each attempt
  submits the snapshot with the new status. On an error the latest version is read from
  the cache (a failed read is logged and the snapshot kept); a conflict with budget left
  retries on the fresh snapshot; a conflict on the last attempt, or any other error, is
  returned. \<open>cache a\<close> is the object the cache holds at address \<open>a\<close>. The result is the
  error returned and the trace.
\<close>

fun UpdateStatus_spec ::
  "('spec, 'status) Cluster \<Rightarrow> (nat \<Rightarrow> ('spec, 'status) HelmChart) \<Rightarrow> 'status \<Rightarrow>
     nat \<Rightarrow> nat \<Rightarrow> ('spec, 'status) HelmChart \<Rightarrow>
     error option \<times> ('spec, 'status) HelmChart event list" where
  "UpdateStatus_spec env cache st 0 attempt snapshot = (None, [])"
| "UpdateStatus_spec env cache st (Suc budget) attempt snapshot =
     (let obj = snapshot\<lparr>Status := st\<rparr> in
      case UpdateStatus env attempt obj of
        None \<Rightarrow> (None, [UpdateStatusCalled obj])
      | Some err \<Rightarrow>
          (case (case Get env attempt (Namespace obj) (Name obj) of
                   Inr a \<Rightarrow> (cache a, [])
                 | Inl gerr \<Rightarrow> (obj, [HandleError (errorGettingUpdated (Name obj) gerr)]))
           of (fresh, logged) \<Rightarrow>
             if IsConflict err \<and> budget \<noteq> 0 then
               (case UpdateStatus_spec env cache st budget (Suc attempt) fresh of
                  (r, evs) \<Rightarrow> (r, UpdateStatusCalled obj # logged @ evs))
             else (Some err, UpdateStatusCalled obj # logged)))"

text \<open>
  What is assumed of the collaborators: the lister returns addresses of objects that were
  in the heap when the call began, and the API server never answers with the timeout
  sentinel of the backoff loop.
\<close>

definition valid_lister :: "('spec, 'status) Cluster \<Rightarrow> nat \<Rightarrow> bool" where
  "valid_lister env n \<longleftrightarrow> (\<forall>k ns name u. Get env k ns name = Inr u \<longrightarrow> u < n)"

definition no_timeout :: "('spec, 'status) Cluster \<Rightarrow> bool" where
  "no_timeout env \<longleftrightarrow> (\<forall>n obj. UpdateStatus env n obj \<noteq> Some ErrWaitTimeout)"

definition always_conflict :: "('spec, 'status) Cluster \<Rightarrow> bool" where
  "always_conflict env \<longleftrightarrow> (\<forall>n obj. \<exists>e. UpdateStatus env n obj = Some e \<and> IsConflict e)"

section \<open>Auxiliary notions of the proofs\<close>

text \<open>The retry driver as one loop that carries the last retriable error.\<close>

fun retry_loop ::
  "nat \<Rightarrow> ('s \<Rightarrow> panic + (error option \<times> 's)) \<Rightarrow> error option \<Rightarrow> 's \<Rightarrow>
     panic + (error option \<times> 's)" where
  "retry_loop 0 fn lastErr s = Inr (lastErr, s)"
| "retry_loop (Suc k) fn lastErr s =
     (case fn s of
        Inl p \<Rightarrow> Inl p
      | Inr (None, s') \<Rightarrow> Inr (None, s')
      | Inr (Some e, s') \<Rightarrow>
          if IsConflict e then retry_loop k fn (Some e) s'
          else Inr (if e = ErrWaitTimeout then lastErr else Some e, s'))"

definition OnError_condition ::
  "(error \<Rightarrow> bool) \<Rightarrow> ('s \<Rightarrow> panic + (error option \<times> 's)) \<Rightarrow> (error option \<times> 's) \<Rightarrow>
     panic + ((bool \<times> error option) \<times> (error option \<times> 's))" where
  "OnError_condition retriable fn =
     (\<lambda>(lastErr, t).
        case fn t of
          Inl p \<Rightarrow> Inl p
        | Inr (None, t') \<Rightarrow> Inr ((True, None), (lastErr, t'))
        | Inr (Some err, t') \<Rightarrow>
            if retriable err then Inr ((False, None), (Some err, t'))
            else Inr ((False, Some err), (lastErr, t')))"

text \<open>
  The heap of a running call against the heap \<open>h\<close> it started from: the objects of \<open>h\<close>
  are still there up to their status, and the current object is the snapshot up to its
  status.
\<close>

definition tracks ::
  "('spec, 'status) HelmChart list \<Rightarrow> 'status \<Rightarrow> ('spec, 'status) ustate \<Rightarrow>
     ('spec, 'status) HelmChart \<Rightarrow> bool" where
  "tracks h st s snapshot \<longleftrightarrow>
     cur s < length (heap s) \<and> length h \<le> length (heap s) \<and>
     (\<forall>u < length h. (heap s ! u)\<lparr>Status := st\<rparr> = (h ! u)\<lparr>Status := st\<rparr>) \<and>
     (heap s ! cur s)\<lparr>Status := st\<rparr> = snapshot\<lparr>Status := st\<rparr>"

text \<open>
  Which objects of \<open>h\<close> a running call has written: none but the one at \<open>a\<close>, the
  argument. \<open>touched\<close> holds from the start, \<open>written\<close> after the first attempt.
\<close>

definition touched ::
  "('spec, 'status) HelmChart list \<Rightarrow> nat \<Rightarrow> 'status \<Rightarrow> ('spec, 'status) ustate \<Rightarrow> bool" where
  "touched h a st s \<longleftrightarrow>
     a < length h \<and> length h \<le> length (heap s) \<and> cur s < length (heap s) \<and>
     (\<forall>u < length h. u \<noteq> a \<longrightarrow> heap s ! u = h ! u) \<and>
     (heap s ! a)\<lparr>Status := st\<rparr> = (h ! a)\<lparr>Status := st\<rparr> \<and>
     (cur s = a \<or> length h \<le> cur s \<and> heap s ! a = (h ! a)\<lparr>Status := st\<rparr>)"

definition written ::
  "('spec, 'status) HelmChart list \<Rightarrow> nat \<Rightarrow> 'status \<Rightarrow> ('spec, 'status) ustate \<Rightarrow> bool" where
  "written h a st s \<longleftrightarrow>
     a < length h \<and> length h \<le> length (heap s) \<and> cur s < length (heap s) \<and>
     (\<forall>u < length h. u \<noteq> a \<longrightarrow> heap s ! u = h ! u) \<and>
     heap s ! a = (h ! a)\<lparr>Status := st\<rparr> \<and>
     (cur s = a \<or> length h \<le> cur s)"

section \<open>Example inputs\<close>

text \<open>
  The resource \<^verbatim>\<open>ns1/foo\<close> with three replicas in its spec, a later version of it in
  the cache, and collaborators to run the controller against.
\<close>

definition foo :: "(nat, nat) HelmChart" where
  "foo = \<lparr>Namespace = ''ns1'', Name = ''foo'', ResourceVersion = ''7'', Spec = 3, Status = 0\<rparr>"

definition foo8 :: "(nat, nat) HelmChart" where
  "foo8 = \<lparr>Namespace = ''ns1'', Name = ''foo'', ResourceVersion = ''8'', Spec = 3, Status = 0\<rparr>"

text \<open>
  A controller whose cache holds \<open>foo\<close> only and fails on the namespace \<^verbatim>\<open>ns2\<close>; its
  sync handler succeeds, or fails with \<open>boom\<close>, or panics.
\<close>

definition lister0 :: "string \<Rightarrow> string \<Rightarrow> panic + (error + (nat, nat) HelmChart)" where
  "lister0 ns name =
     (if ns = ''ns2'' then Inr (Inl (Errorf ''cache failure''))
      else if ns = ''ns1'' \<and> name = ''foo'' then Inr (Inr foo)
      else Inr (Inl (StatusError NotFound ''not found'')))"

definition ctrl_ok :: "(nat, nat) Controller" where
  "ctrl_ok = \<lparr>helmChartLister = lister0, SyncHandler = (\<lambda>c. Inr None)\<rparr>"

definition ctrl_boom :: "(nat, nat) Controller" where
  "ctrl_boom = \<lparr>helmChartLister = lister0, SyncHandler = (\<lambda>c. Inr (Some (Errorf ''boom'')))\<rparr>"

definition ctrl_panic :: "(nat, nat) Controller" where
  "ctrl_panic =
     \<lparr>helmChartLister = lister0, SyncHandler = (\<lambda>c. Inl (PanicValue ''handler crashed''))\<rparr>"

text \<open>
  API servers: one accepts every write; one rejects version 7 with a conflict and accepts
  the rest; one answers every write with a conflict that tells the write's number. The
  lister returns address 1 each time.
\<close>

definition accepting :: "(nat, nat) Cluster" where
  "accepting = \<lparr>UpdateStatus = (\<lambda>n obj. None), Get = (\<lambda>n ns name. Inr 1)\<rparr>"

definition moved_on :: "(nat, nat) Cluster" where
  "moved_on =
     \<lparr>UpdateStatus = (\<lambda>n obj. if ResourceVersion obj = ''7''
                                then Some (StatusError Conflict ''conflict'') else None),
      Get = (\<lambda>n ns name. Inr 1)\<rparr>"

definition contended :: "(nat, nat) Cluster" where
  "contended =
     \<lparr>UpdateStatus = (\<lambda>n obj. Some (StatusError Conflict (replicate n (CHR ''!'')))),
      Get = (\<lambda>n ns name. Inr 1)\<rparr>"

section \<open>Properties of the notification handlers\<close>

lemma enqueue_Some:
  "enqueue (Some c) =
     Inr [Add (StringItem (if Namespace c = [] then Name c else Namespace c @ ''/'' @ Name c))]"
  by (simp add: enqueue_def MetaNamespaceKeyFunc_def)

lemma enqueue_None: "enqueue None = Inl NilPointerDereference"
  by (simp add: enqueue_def MetaNamespaceKeyFunc_def)

lemma addHelmChart_live:
  "addHelmChart (HelmChartPtr (Some c)) =
     Inr [Add (StringItem (if Namespace c = [] then Name c else Namespace c @ ''/'' @ Name c))]"
  by (simp add: addHelmChart_def enqueue_Some)

text \<open>A delete notification that carries the HelmChart itself enqueues its key.\<close>

lemma deleteHelmChart_live:
  "deleteHelmChart (HelmChartPtr (Some c)) =
     Inr [Add (StringItem (if Namespace c = [] then Name c else Namespace c @ ''/'' @ Name c))]"
  by (simp add: deleteHelmChart_def enqueue_Some)

text \<open>
  A tombstone that wraps a HelmChart pointer, whatever the pointer: \<^verbatim>\<open>enqueue\<close> is
  called on the nil \<open>chart\<close> and the handler panics; no key is added.
\<close>

lemma deleteHelmChart_tombstone:
  "deleteHelmChart (DeletedFinalStateUnknown key (HelmChartPtr p)) = Inl NilPointerDereference"
  by (simp add: deleteHelmChart_def enqueue_None)

text \<open>
  C2. For every delete notification the key of the deleted resource is enqueued, also
  when the payload is a tombstone that wraps the HelmChart. The code does not do this
  for a tombstone: on the tombstone of \<^verbatim>\<open>ns1/foo\<close> the handler ends in a nil
  dereference and \<^verbatim>\<open>Add\<close> is never called, while the same HelmChart delivered
  directly has its key \<^verbatim>\<open>ns1/foo\<close> added.
\<close>

theorem deleteHelmChart_tombstone_foo:
  "deleteHelmChart (DeletedFinalStateUnknown ''ns1/foo'' (HelmChartPtr (Some foo)))
     = Inl NilPointerDereference \<and>
   deleteHelmChart (HelmChartPtr (Some foo)) = Inr [Add (StringItem ''ns1/foo'')]"
  by (simp add: deleteHelmChart_def enqueue_def MetaNamespaceKeyFunc_def foo_def)

text \<open>
  C3, as claimed: every add, update or delete notification whose payload is not a
  HelmChart is reported and dropped without a panic. It fails for add and update: their
  type assertion has one result, and on another payload it panics.
\<close>

theorem add_update_wrong_type_panic:
  "addHelmChart (OtherObject 0 :: (nat, nat) object) = Inl InterfaceConversion \<and>
   updateHelmChart (HelmChartPtr (Some foo)) (OtherObject 0) = Inl InterfaceConversion \<and>
   updateHelmChart (OtherObject 0) (HelmChartPtr (Some foo)) = Inl InterfaceConversion"
  by (simp add: addHelmChart_def updateHelmChart_def)

text \<open>
  C3, amended. For every delete notification whose payload is neither a HelmChart
  pointer nor a tombstone that wraps one, \<^verbatim>\<open>deleteHelmChart\<close> reports one error to
  \<^verbatim>\<open>HandleError\<close> and returns: nothing is enqueued, and there is no panic. The add and
  update handlers assert the type of their payload unchecked: on a payload that is not a
  HelmChart pointer they panic with an interface conversion, before any call.
\<close>

theorem malformed_payload:
  "(\<forall>p. obj \<noteq> HelmChartPtr p) \<longrightarrow>
     addHelmChart obj = Inl InterfaceConversion \<and>
     updateHelmChart obj other = Inl InterfaceConversion \<and>
     updateHelmChart (HelmChartPtr q) obj = Inl InterfaceConversion \<and>
     ((\<forall>key p. obj \<noteq> DeletedFinalStateUnknown key (HelmChartPtr p)) \<longrightarrow>
        (\<exists>msg. deleteHelmChart obj = Inr [HandleError (Errorf msg)]))"
proof (cases obj)
  case (HelmChartPtr p)
  then show ?thesis by simp
next
  case (DeletedFinalStateUnknown key inner)
  then show ?thesis
    by (cases inner) (simp_all add: addHelmChart_def updateHelmChart_def deleteHelmChart_def)
next
  case (OtherObject n)
  then show ?thesis
    by (simp add: addHelmChart_def updateHelmChart_def deleteHelmChart_def)
qed

text \<open>
  The amended C3 at a payload of another type, and at a tombstone that wraps one.
\<close>

theorem malformed_payload_witness:
  "deleteHelmChart (OtherObject 0 :: (nat, nat) object) =
     Inr [HandleError (Errorf ''couldn't get object from tombstone '')] \<and>
   deleteHelmChart (DeletedFinalStateUnknown ''ns1/foo'' (OtherObject 0 :: (nat, nat) object)) =
     Inr [HandleError (Errorf ''tombstone contained object that is not a HelmChart '')] \<and>
   addHelmChart (DeletedFinalStateUnknown ''ns1/foo'' (OtherObject 0 :: (nat, nat) object)) =
     Inl InterfaceConversion"
  using malformed_payload [of "OtherObject 0 :: (nat, nat) object"]
    malformed_payload
      [of "DeletedFinalStateUnknown ''ns1/foo'' (OtherObject 0 :: (nat, nat) object)"]
  by (simp add: deleteHelmChart_def)

text \<open>
  C4. For every update notification whose old and new HelmChart have deeply equal
  specs, nothing is enqueued, whatever their status and metadata; when the specs differ,
  the key of the new HelmChart is added to the queue.
\<close>

theorem updateHelmChart_spec_filter:
  "(Spec old = Spec new \<longrightarrow>
      updateHelmChart (HelmChartPtr (Some old)) (HelmChartPtr (Some new)) = Inr []) \<and>
   (Spec old \<noteq> Spec new \<longrightarrow>
      updateHelmChart (HelmChartPtr (Some old)) (HelmChartPtr (Some new)) =
        Inr [Add (StringItem (if Namespace new = [] then Name new
                              else Namespace new @ ''/'' @ Name new))])"
  by (simp add: updateHelmChart_def enqueue_Some)

text \<open>
  C4 at \<open>foo\<close>: a new version with another status and resource version is skipped, one
  with four replicas is enqueued.
\<close>

theorem updateHelmChart_spec_filter_witness:
  "updateHelmChart (HelmChartPtr (Some foo))
     (HelmChartPtr (Some (foo\<lparr>ResourceVersion := ''8'', Status := 1\<rparr>))) = Inr [] \<and>
   updateHelmChart (HelmChartPtr (Some foo)) (HelmChartPtr (Some (foo\<lparr>Spec := 4\<rparr>))) =
     Inr [Add (StringItem ''ns1/foo'')]"
  using updateHelmChart_spec_filter [of foo "foo\<lparr>ResourceVersion := ''8'', Status := 1\<rparr>"]
    updateHelmChart_spec_filter [of foo "foo\<lparr>Spec := 4\<rparr>"]
  by (simp add: foo_def)

section \<open>Properties of the worker\<close>

lemma syncHandler_no_release: "filter isRelease (fst (syncHandler c key)) = []"
  by (simp add: syncHandler_def split: sum.splits prod.splits)

lemma syncHandler_resolved:
  "SplitMetaNamespaceKey key = Inr (ns, name) \<Longrightarrow> helmChartLister c ns name = Inr (Inr chart) \<Longrightarrow>
     syncHandler c key = ([SyncHandlerCalled chart], SyncHandler c chart)"
  by (simp add: syncHandler_def)

lemma processNextWorkItem_string:
  "processNextWorkItem c (StringItem key, False) =
     (case syncHandler c key of
        (evs, Inl p) \<Rightarrow> (evs @ [Done (StringItem key)], Inl p)
      | (evs, Inr None) \<Rightarrow> (evs @ [Forget (StringItem key), Done (StringItem key)], Inr True)
      | (evs, Inr (Some err)) \<Rightarrow>
          (evs @ [AddRateLimited (StringItem key), Done (StringItem key),
                  HandleError (errorSyncing key err)], Inr True))"
  by (simp add: processNextWorkItem_def processNextWorkItem_func_def
           split: prod.splits option.splits sum.splits)

lemma processNextWorkItem_other:
  "processNextWorkItem c (OtherItem x, False) =
     ([Forget (OtherItem x), HandleError (Errorf ''expected string in workqueue but got ''),
       Done (OtherItem x)], Inr True)"
  by (simp add: processNextWorkItem_def processNextWorkItem_func_def)

lemma processNextWorkItem_shutdown: "processNextWorkItem c (obj, True) = ([], Inr False)"
  by (simp add: processNextWorkItem_def)

lemma processNextWorkItem_not_false: "snd (processNextWorkItem c (obj, False)) \<noteq> Inr False"
  by (cases obj) (simp_all add: processNextWorkItem_string processNextWorkItem_other
                    split: prod.splits option.splits sum.splits)

lemma syncHandler_foo:
  "helmChartLister c = lister0 \<Longrightarrow>
     syncHandler c ''ns1/foo'' = ([SyncHandlerCalled foo], SyncHandler c foo)"
  by (simp add: syncHandler_def SplitMetaNamespaceKey_def lister0_def)

lemma SplitMetaNamespaceKey_foo: "SplitMetaNamespaceKey ''ns1/foo'' = Inr (''ns1'', ''foo'')"
  by (simp add: SplitMetaNamespaceKey_def)

text \<open>
  C5. For every item a worker processes: when the pluggable sync handler, called on the
  HelmChart the key resolves to, returns success, the item is forgotten; when it returns
  an error, the key is added back rate limited and the error goes to \<^verbatim>\<open>HandleError\<close>.
  The same holds of whatever \<^verbatim>\<open>syncHandler\<close> returns, which covers the errors of the
  lookup. In either case \<^verbatim>\<open>processNextWorkItem\<close> returns true and the loop of
  \<^verbatim>\<open>runWorker\<close> goes on with the next item; \<^verbatim>\<open>processNextWorkItem\<close> returns false,
  with no call made, only when the queue reports its shutdown.
\<close>

theorem processNextWorkItem_disposition:
  "processNextWorkItem c (obj, True) = ([], Inr False) \<and>
   snd (processNextWorkItem c (obj, False)) \<noteq> Inr False \<and>
   (SplitMetaNamespaceKey key = Inr (ns, name) \<and> helmChartLister c ns name = Inr (Inr chart) \<longrightarrow>
      (SyncHandler c chart = Inr None \<longrightarrow>
         processNextWorkItem c (StringItem key, False) =
           ([SyncHandlerCalled chart, Forget (StringItem key), Done (StringItem key)],
            Inr True)) \<and>
      (SyncHandler c chart = Inr (Some err) \<longrightarrow>
         processNextWorkItem c (StringItem key, False) =
           ([SyncHandlerCalled chart, AddRateLimited (StringItem key), Done (StringItem key),
             HandleError (errorSyncing key err)], Inr True))) \<and>
   (syncHandler c key = (evs, Inr None) \<longrightarrow>
      processNextWorkItem c (StringItem key, False) =
        (evs @ [Forget (StringItem key), Done (StringItem key)], Inr True)) \<and>
   (syncHandler c key = (evs, Inr (Some err)) \<longrightarrow>
      processNextWorkItem c (StringItem key, False) =
        (evs @ [AddRateLimited (StringItem key), Done (StringItem key),
                HandleError (errorSyncing key err)], Inr True)) \<and>
   (snd (processNextWorkItem c (obj, False)) = Inr True \<longrightarrow>
      runWorker c ((obj, False) # gots) =
        (fst (processNextWorkItem c (obj, False)) @ fst (runWorker c gots),
         snd (runWorker c gots)))"
proof -
  have a: "processNextWorkItem c (obj, True) = ([], Inr False)"
    by (rule processNextWorkItem_shutdown)
  have b: "snd (processNextWorkItem c (obj, False)) \<noteq> Inr False"
    by (rule processNextWorkItem_not_false)
  have h: "processNextWorkItem c (StringItem key, False) =
             ([SyncHandlerCalled chart, Forget (StringItem key), Done (StringItem key)],
              Inr True)"
    if "SplitMetaNamespaceKey key = Inr (ns, name)"
      and "helmChartLister c ns name = Inr (Inr chart)" and "SyncHandler c chart = Inr None"
    using syncHandler_resolved [OF that(1) that(2)] that(3)
    by (simp add: processNextWorkItem_string)
  have e: "processNextWorkItem c (StringItem key, False) =
             ([SyncHandlerCalled chart, AddRateLimited (StringItem key),
               Done (StringItem key), HandleError (errorSyncing key err)], Inr True)"
    if "SplitMetaNamespaceKey key = Inr (ns, name)"
      and "helmChartLister c ns name = Inr (Inr chart)"
      and "SyncHandler c chart = Inr (Some err)"
    using syncHandler_resolved [OF that(1) that(2)] that(3)
    by (simp add: processNextWorkItem_string)
  have s: "(syncHandler c key = (evs, Inr None) \<longrightarrow>
      processNextWorkItem c (StringItem key, False) =
        (evs @ [Forget (StringItem key), Done (StringItem key)], Inr True)) \<and>
   (syncHandler c key = (evs, Inr (Some err)) \<longrightarrow>
      processNextWorkItem c (StringItem key, False) =
        (evs @ [AddRateLimited (StringItem key), Done (StringItem key),
                HandleError (errorSyncing key err)], Inr True))"
    by (simp add: processNextWorkItem_string)
  have d: "runWorker c ((obj, False) # gots) =
     (fst (processNextWorkItem c (obj, False)) @ fst (runWorker c gots),
      snd (runWorker c gots))"
    if "snd (processNextWorkItem c (obj, False)) = Inr True"
    using that by (cases "processNextWorkItem c (obj, False)") (simp split: prod.splits)
  show ?thesis using a b h e s d by blast
qed

text \<open>
  C5 on the key \<^verbatim>\<open>ns1/foo\<close>: with a handler that succeeds, with one that fails, and a
  worker that is given the key and then the shutdown.
\<close>

theorem processNextWorkItem_disposition_witness:
  "processNextWorkItem ctrl_ok (StringItem ''ns1/foo'', False) =
     ([SyncHandlerCalled foo, Forget (StringItem ''ns1/foo''), Done (StringItem ''ns1/foo'')],
      Inr True) \<and>
   processNextWorkItem ctrl_boom (StringItem ''ns1/foo'', False) =
     ([SyncHandlerCalled foo, AddRateLimited (StringItem ''ns1/foo''),
       Done (StringItem ''ns1/foo''),
       HandleError (Errorf ''error syncing 'ns1/foo': boom, requeuing'')], Inr True) \<and>
   runWorker ctrl_ok [(StringItem ''ns1/foo'', False), (StringItem [], True)] =
     ([SyncHandlerCalled foo, Forget (StringItem ''ns1/foo''), Done (StringItem ''ns1/foo'')],
      Inr True)"
proof -
  have l1: "helmChartLister ctrl_ok ''ns1'' ''foo'' = Inr (Inr foo)"
    and l2: "helmChartLister ctrl_boom ''ns1'' ''foo'' = Inr (Inr foo)"
    by (simp_all add: ctrl_ok_def ctrl_boom_def lister0_def)
  have h1: "SyncHandler ctrl_ok foo = Inr None"
    and h2: "SyncHandler ctrl_boom foo = Inr (Some (Errorf ''boom''))"
    by (simp_all add: ctrl_ok_def ctrl_boom_def)
  from processNextWorkItem_disposition
          [of ctrl_ok "StringItem ''ns1/foo''" "''ns1/foo''" "''ns1''" "''foo''" foo _ _
              "[(StringItem [], True)]"]
    processNextWorkItem_disposition
          [of ctrl_boom _ "''ns1/foo''" "''ns1''" "''foo''" foo "Errorf ''boom''"]
    SplitMetaNamespaceKey_foo l1 l2 h1 h2
  show ?thesis
    by (simp add: processNextWorkItem_shutdown errorSyncing_def)
qed

text \<open>
  C6, as claimed: exactly one terminal disposition is applied to every claimed item on
  every exit path. It fails on the exit by panic: when the pluggable sync handler panics
  on \<^verbatim>\<open>ns1/foo\<close>, the deferred \<^verbatim>\<open>Done\<close> is the only call the queue sees for the item,
  with neither \<^verbatim>\<open>Forget\<close> nor \<^verbatim>\<open>AddRateLimited\<close>.
\<close>

theorem processNextWorkItem_panic_no_disposition:
  "processNextWorkItem ctrl_panic (StringItem ''ns1/foo'', False) =
     ([SyncHandlerCalled foo, Done (StringItem ''ns1/foo'')],
      Inl (PanicValue ''handler crashed'')) \<and>
   filter isDisposition (fst (processNextWorkItem ctrl_panic (StringItem ''ns1/foo'', False)))
     = []"
  by (simp add: processNextWorkItem_string syncHandler_foo ctrl_panic_def)

text \<open>
  C6, amended. For every item claimed from the queue, \<^verbatim>\<open>Done\<close> is called on that item
  exactly once on every exit path of the processing function, and it is the last call
  the queue sees for the item: the invalid item, the malformed key and the exit by a
  panic of the lister or of the sync handler included. On every path on which the
  processing function returns, exactly one terminal disposition of that item,
  \<^verbatim>\<open>Forget\<close> or \<^verbatim>\<open>AddRateLimited\<close>, comes before the \<^verbatim>\<open>Done\<close>; on the exit by panic
  there is none.
\<close>

theorem processNextWorkItem_release:
  "(snd (processNextWorkItem c (obj, False)) = Inr True \<and>
      (filter isRelease (fst (processNextWorkItem c (obj, False))) = [Forget obj, Done obj] \<or>
       filter isRelease (fst (processNextWorkItem c (obj, False)))
         = [AddRateLimited obj, Done obj])) \<or>
   ((\<exists>p. snd (processNextWorkItem c (obj, False)) = Inl p) \<and>
      filter isRelease (fst (processNextWorkItem c (obj, False))) = [Done obj])"
proof (cases obj)
  case (OtherItem x)
  then show ?thesis by (simp add: processNextWorkItem_other)
next
  case (StringItem key)
  obtain evs r where s: "syncHandler c key = (evs, r)" by (cases "syncHandler c key")
  have q: "filter isRelease evs = []"
    using syncHandler_no_release [of c key] s by simp
  show ?thesis
  proof (cases r)
    case (Inl p)
    with q show ?thesis unfolding StringItem processNextWorkItem_string s by simp
  next
    case (Inr e)
    with q show ?thesis unfolding StringItem processNextWorkItem_string s by (cases e) simp_all
  qed
qed

text \<open>
  The amended C6 on an item that is not a string, on a key whose sync fails, and on a
  key whose sync handler panics.
\<close>

theorem processNextWorkItem_release_witness:
  "filter isRelease (fst (processNextWorkItem ctrl_ok (OtherItem 7, False))) =
     [Forget (OtherItem 7), Done (OtherItem 7)] \<and>
   filter isRelease (fst (processNextWorkItem ctrl_boom (StringItem ''ns1/foo'', False))) =
     [AddRateLimited (StringItem ''ns1/foo''), Done (StringItem ''ns1/foo'')] \<and>
   filter isRelease (fst (processNextWorkItem ctrl_panic (StringItem ''ns1/foo'', False))) =
     [Done (StringItem ''ns1/foo'')]"
  using processNextWorkItem_release [of ctrl_ok "OtherItem 7"]
    processNextWorkItem_release [of ctrl_boom "StringItem ''ns1/foo''"]
    processNextWorkItem_release [of ctrl_panic "StringItem ''ns1/foo''"]
  by (simp add: processNextWorkItem_other processNextWorkItem_string syncHandler_foo
        ctrl_boom_def ctrl_panic_def)

text \<open>
  C7. For every key that does not split into namespace and name, \<^verbatim>\<open>syncHandler\<close>
  reports the invalid key and returns no error, so the key is forgotten and not added
  back; neither the lister nor the pluggable sync handler is called.
\<close>

theorem syncHandler_malformed_key:
  "SplitMetaNamespaceKey key = Inl e \<Longrightarrow>
     syncHandler c key =
       ([HandleError (Errorf (''invalid resource key: '' @ key))], Inr None) \<and>
     processNextWorkItem c (StringItem key, False) =
       ([HandleError (Errorf (''invalid resource key: '' @ key)),
         Forget (StringItem key), Done (StringItem key)], Inr True)"
  by (simp add: processNextWorkItem_string syncHandler_def)

text \<open>C7 on the key \<^verbatim>\<open>a/b/c\<close>.\<close>

theorem syncHandler_malformed_key_witness:
  "SplitMetaNamespaceKey ''a/b/c'' = Inl (Errorf ''unexpected key format: a/b/c'') \<and>
   processNextWorkItem ctrl_boom (StringItem ''a/b/c'', False) =
     ([HandleError (Errorf ''invalid resource key: a/b/c''),
       Forget (StringItem ''a/b/c''), Done (StringItem ''a/b/c'')], Inr True)"
proof -
  have k: "SplitMetaNamespaceKey ''a/b/c'' = Inl (Errorf ''unexpected key format: a/b/c'')"
    by (simp add: SplitMetaNamespaceKey_def)
  from syncHandler_malformed_key [OF k, of ctrl_boom] k show ?thesis by simp
qed

text \<open>
  C8. For every key whose lookup in the cache reports not-found, \<^verbatim>\<open>syncHandler\<close>
  returns no error without calling the pluggable sync handler, and the key is forgotten;
  for any other error of the lookup it returns that error, and the key is added back
  rate limited.
\<close>

theorem syncHandler_lookup_error:
  "SplitMetaNamespaceKey key = Inr (ns, name) \<Longrightarrow>
   helmChartLister c ns name = Inr (Inl err) \<Longrightarrow>
     (IsNotFound err \<longrightarrow>
        syncHandler c key = ([], Inr None) \<and>
        processNextWorkItem c (StringItem key, False) =
          ([Forget (StringItem key), Done (StringItem key)], Inr True)) \<and>
     (\<not> IsNotFound err \<longrightarrow>
        syncHandler c key = ([], Inr (Some err)) \<and>
        processNextWorkItem c (StringItem key, False) =
          ([AddRateLimited (StringItem key), Done (StringItem key),
            HandleError (errorSyncing key err)], Inr True))"
  by (simp add: processNextWorkItem_string syncHandler_def)

text \<open>
  C8 on \<^verbatim>\<open>ns1/bar\<close>, which the cache does not hold, and on \<^verbatim>\<open>ns2/baz\<close>, where the
  lookup fails otherwise.
\<close>

theorem syncHandler_lookup_error_witness:
  "processNextWorkItem ctrl_ok (StringItem ''ns1/bar'', False) =
     ([Forget (StringItem ''ns1/bar''), Done (StringItem ''ns1/bar'')], Inr True) \<and>
   processNextWorkItem ctrl_ok (StringItem ''ns2/baz'', False) =
     ([AddRateLimited (StringItem ''ns2/baz''), Done (StringItem ''ns2/baz''),
       HandleError (Errorf ''error syncing 'ns2/baz': cache failure, requeuing'')], Inr True)"
proof -
  have k1: "SplitMetaNamespaceKey ''ns1/bar'' = Inr (''ns1'', ''bar'')"
    and k2: "SplitMetaNamespaceKey ''ns2/baz'' = Inr (''ns2'', ''baz'')"
    by (simp_all add: SplitMetaNamespaceKey_def)
  have l1: "helmChartLister ctrl_ok ''ns1'' ''bar'' =
              Inr (Inl (StatusError NotFound ''not found''))"
    and l2: "helmChartLister ctrl_ok ''ns2'' ''baz'' = Inr (Inl (Errorf ''cache failure''))"
    by (simp_all add: ctrl_ok_def lister0_def)
  from syncHandler_lookup_error [OF k1 l1] syncHandler_lookup_error [OF k2 l2]
  show ?thesis by (simp add: errorSyncing_def)
qed

section \<open>Properties of the startup\<close>

text \<open>
  C10. \<^verbatim>\<open>Run\<close> starts no worker before the wait for the cache has returned: every start
  of a worker comes after the wait and only when the wait reported the cache synced.
  When the wait fails, \<^verbatim>\<open>Run\<close> returns without starting any worker; otherwise it
  starts the workers asked for.
\<close>

theorem Run_cold_start_barrier:
  "(\<not> synced \<longrightarrow> filter isStartWorker (Run synced workers) = []) \<and>
   (\<forall>i < length (Run synced workers).
      isStartWorker (Run synced workers ! i) \<longrightarrow>
        synced \<and> 0 < i \<and> Run synced workers ! 0 = WaitForCacheSync) \<and>
   (synced \<longrightarrow> filter isStartWorker (Run synced workers) = map StartWorker [0 ..< nat workers])"
proof -
  have f: "filter isStartWorker (map StartWorker xs) = map StartWorker xs" for xs
    by (induction xs) simp_all
  have a: "\<not> synced \<longrightarrow> filter isStartWorker (Run synced workers) = []"
    by (simp add: Run_def)
  have c: "synced \<longrightarrow>
           filter isStartWorker (Run synced workers) = map StartWorker [0 ..< nat workers]"
    by (simp add: Run_def f)
  have h: "Run synced workers ! 0 = WaitForCacheSync" by (simp add: Run_def)
  have b: "isStartWorker (Run synced workers ! i) \<longrightarrow> synced \<and> 0 < i"
    if "i < length (Run synced workers)" for i
  proof (cases synced)
    case True
    then show ?thesis using h by (cases i) auto
  next
    case False
    with that have "i < 3" by (simp add: Run_def)
    then have "i = 0 \<or> i = 1 \<or> i = 2" by arith
    with False show ?thesis by (auto simp: Run_def)
  qed
  show ?thesis using a b c h by blast
qed

text \<open>C10 with two workers asked for: the wait fails, and the wait succeeds.\<close>

theorem Run_cold_start_barrier_witness:
  "Run False 2 = [WaitForCacheSync, ShutDown, HandleCrash] \<and>
   filter isStartWorker (Run False 2) = [] \<and>
   filter isStartWorker (Run True 2) = [StartWorker 0, StartWorker 1]"
proof -
  have u: "[0 ..< nat 2] = [0, Suc 0]" by (simp add: upt_rec)
  from Run_cold_start_barrier [of False 2] Run_cold_start_barrier [of True 2] u
  show ?thesis by (simp add: Run_def)
qed

section \<open>The retry driver\<close>

text \<open>
  \<^verbatim>\<open>retry.OnError\<close> over \<^verbatim>\<open>wait.ExponentialBackoff\<close> is the loop \<open>retry_loop\<close>: the
  timeout of the backoff is turned into the last conflict error.
\<close>

lemma ExponentialBackoff_retry_loop:
  "(case ExponentialBackoff k (OnError_condition IsConflict fn) (lastErr, s) of
      Inl p \<Rightarrow> Inl p
    | Inr (err, (lastErr, s')) \<Rightarrow>
        Inr (if err = Some ErrWaitTimeout then lastErr else err, s'))
   = retry_loop k fn lastErr s"
proof (induction k arbitrary: lastErr s)
  case 0
  show ?case by simp
next
  case (Suc k)
  show ?case
  proof (cases "fn s")
    case (Inl p)
    then show ?thesis by (simp add: OnError_condition_def)
  next
    case (Inr r)
    obtain e s' where r: "r = (e, s')" by (cases r)
    show ?thesis
    proof (cases e)
      case None
      with Inr r show ?thesis by (simp add: OnError_condition_def)
    next
      case (Some err)
      show ?thesis
      proof (cases "IsConflict err")
        case False
        with Inr r Some show ?thesis by (simp add: OnError_condition_def)
      next
        case True
        show ?thesis
        proof (cases k)
          case 0
          with True Inr r Some show ?thesis by (simp add: OnError_condition_def)
        next
          case (Suc j)
          with True Inr r Some Suc.IH [of "Some err" s'] show ?thesis
            by (simp add: OnError_condition_def)
        qed
      qed
    qed
  qed
qed

lemma RetryOnConflict_retry_loop: "RetryOnConflict k fn s = retry_loop k fn None s"
  using ExponentialBackoff_retry_loop [of k fn None s]
  by (simp add: RetryOnConflict_def OnError_def OnError_condition_def)


lemma retry_loop_conflict:
  "fn s = Inr (Some err, s') \<Longrightarrow> IsConflict err \<Longrightarrow>
     retry_loop (Suc b) fn lastErr s = retry_loop b fn (Some err) s'"
  by simp

section \<open>Properties of the status write-back\<close>

text \<open>One attempt of the function literal, from a state that tracks a snapshot.\<close>

lemma tracks_nth:
  "tracks h st s snapshot \<Longrightarrow> u < length h \<Longrightarrow>
     (heap s ! u)\<lparr>Status := st\<rparr> = (h ! u)\<lparr>Status := st\<rparr>"
  by (simp add: tracks_def)

lemma func_success:
  assumes "tracks h st s snapshot"
    and "UpdateStatus env (calls s) (snapshot\<lparr>Status := st\<rparr>) = None"
  shows "\<exists>s'. UpdateChartStatus_func env (Some st) s = Inr (None, s') \<and>
           calls s' = Suc (calls s) \<and>
           events s' = events s @ [UpdateStatusCalled (snapshot\<lparr>Status := st\<rparr>)]"
  using assms by (simp add: UpdateChartStatus_func_def tracks_def Let_def)

lemma func_failure:
  assumes t: "tracks h st s snapshot"
    and v: "valid_lister env (length h)"
    and w: "UpdateStatus env (calls s) (snapshot\<lparr>Status := st\<rparr>) = Some err"
  shows "\<exists>s'. UpdateChartStatus_func env (Some st) s = Inr (Some err, s') \<and>
           calls s' = Suc (calls s) \<and>
           (case Get env (calls s) (Namespace snapshot) (Name snapshot) of
              Inr a \<Rightarrow>
                tracks h st s' (h ! a) \<and>
                events s' = events s @ [UpdateStatusCalled (snapshot\<lparr>Status := st\<rparr>)]
            | Inl gerr \<Rightarrow>
                tracks h st s' (snapshot\<lparr>Status := st\<rparr>) \<and>
                events s' = events s @ [UpdateStatusCalled (snapshot\<lparr>Status := st\<rparr>),
                  HandleError (errorGettingUpdated (Name snapshot) gerr)])"
proof -
  let ?h1 = "(heap s)[cur s := (heap s ! cur s)\<lparr>Status := st\<rparr>]"
  let ?obj = "snapshot\<lparr>Status := st\<rparr>"
  from t have c: "cur s < length (heap s)" and l: "length h \<le> length (heap s)"
    and o: "(heap s ! cur s)\<lparr>Status := st\<rparr> = ?obj"
    by (simp_all add: tracks_def)
  have obj: "?h1 ! cur s = ?obj" using c o by simp
  have nm: "Namespace ?obj = Namespace snapshot" "Name ?obj = Name snapshot" by simp_all
  have h1: "(?h1 ! u)\<lparr>Status := st\<rparr> = (h ! u)\<lparr>Status := st\<rparr>" if "u < length h" for u
    using tracks_nth [OF t that] by (cases "u = cur s") (simp_all add: c)
  have all2: "\<forall>u < length h. ((?h1 @ ys) ! u)\<lparr>Status := st\<rparr> = (h ! u)\<lparr>Status := st\<rparr>" for ys
    using l h1 by (simp add: nth_append)
  show ?thesis
  proof (cases "Get env (calls s) (Namespace snapshot) (Name snapshot)")
    case (Inl gerr)
    have "tracks h st (s\<lparr>heap := ?h1, calls := Suc (calls s), events := events s @ [UpdateStatusCalled ?obj,
            HandleError (errorGettingUpdated (Name snapshot) gerr)]\<rparr>) ?obj"
      using c l all2 [of "[]"] obj by (simp add: tracks_def)
    then show ?thesis using Inl w c obj
      by (simp add: UpdateChartStatus_func_def Let_def tracks_def)
  next
    case (Inr a)
    with v have a: "a < length h" by (auto simp: valid_lister_def)
    then have a1: "a < length ?h1" using l by simp
    have "tracks h st (s\<lparr>heap := ?h1 @ [?h1 ! a], cur := length ?h1, calls := Suc (calls s),
            events := events s @ [UpdateStatusCalled ?obj]\<rparr>) (h ! a)"
      using l all2 [of "[?h1 ! a]"] h1 [OF a] by (simp add: tracks_def nth_append)
    then show ?thesis using Inr w c obj a1
      by (simp add: UpdateChartStatus_func_def Let_def tracks_def)
  qed
qed


lemma spec_conflict_refetched:
  assumes "UpdateStatus env n (snapshot\<lparr>Status := st\<rparr>) = Some err" and "IsConflict err"
    and "b \<noteq> 0" and "Get env n (Namespace snapshot) (Name snapshot) = Inr a"
  shows "UpdateStatus_spec env cache st (Suc b) n snapshot =
           (fst (UpdateStatus_spec env cache st b (Suc n) (cache a)),
            UpdateStatusCalled (snapshot\<lparr>Status := st\<rparr>) #
            snd (UpdateStatus_spec env cache st b (Suc n) (cache a)))"
  using assms by (simp add: Let_def split: prod.splits)

lemma spec_conflict_not_refetched:
  assumes "UpdateStatus env n (snapshot\<lparr>Status := st\<rparr>) = Some err" and "IsConflict err"
    and "b \<noteq> 0" and "Get env n (Namespace snapshot) (Name snapshot) = Inl gerr"
  shows "UpdateStatus_spec env cache st (Suc b) n snapshot =
           (fst (UpdateStatus_spec env cache st b (Suc n) (snapshot\<lparr>Status := st\<rparr>)),
            UpdateStatusCalled (snapshot\<lparr>Status := st\<rparr>) #
            HandleError (errorGettingUpdated (Name snapshot) gerr) #
            snd (UpdateStatus_spec env cache st b (Suc n) (snapshot\<lparr>Status := st\<rparr>)))"
  using assms by (simp add: Let_def split: prod.splits)

lemma retry_loop_refines:
  assumes v: "valid_lister env (length h)" and nt: "no_timeout env"
  shows "tracks h st s snapshot \<Longrightarrow>
    \<exists>s'. retry_loop (Suc k) (UpdateChartStatus_func env (Some st)) lastErr s =
            Inr (fst (UpdateStatus_spec env (\<lambda>u. h ! u) st (Suc k) (calls s) snapshot), s') \<and>
          events s' =
            events s @ snd (UpdateStatus_spec env (\<lambda>u. h ! u) st (Suc k) (calls s) snapshot) \<and>
          calls s < calls s' \<and> calls s' \<le> calls s + Suc k"
proof (induction k arbitrary: s snapshot lastErr)
  case 0
  let ?obj = "snapshot\<lparr>Status := st\<rparr>"
  show ?case
  proof (cases "UpdateStatus env (calls s) ?obj")
    case None
    from func_success [OF "0.prems" None] None show ?thesis by auto
  next
    case (Some err)
    from func_failure [OF "0.prems" v Some] obtain s' where
      f: "UpdateChartStatus_func env (Some st) s = Inr (Some err, s')"
      and c: "calls s' = Suc (calls s)"
      and g: "case Get env (calls s) (Namespace snapshot) (Name snapshot) of
              Inr a \<Rightarrow>
                tracks h st s' (h ! a) \<and>
                events s' = events s @ [UpdateStatusCalled ?obj]
            | Inl gerr \<Rightarrow>
                tracks h st s' ?obj \<and>
                events s' = events s @ [UpdateStatusCalled ?obj,
                  HandleError (errorGettingUpdated (Name snapshot) gerr)]"
      by blast
    from nt Some have ne: "err \<noteq> ErrWaitTimeout" by (auto simp: no_timeout_def)
    show ?thesis using f c g ne Some
      by (cases "Get env (calls s) (Namespace snapshot) (Name snapshot)") simp_all
  qed
next
  case (Suc k)
  let ?obj = "snapshot\<lparr>Status := st\<rparr>"
  let ?fn = "UpdateChartStatus_func env (Some st)"
  show ?case
  proof (cases "UpdateStatus env (calls s) ?obj")
    case None
    from func_success [OF Suc.prems None] None show ?thesis by auto
  next
    case (Some err)
    from func_failure [OF Suc.prems v Some] obtain s' where
      f: "?fn s = Inr (Some err, s')"
      and c: "calls s' = Suc (calls s)"
      and g: "case Get env (calls s) (Namespace snapshot) (Name snapshot) of
              Inr a \<Rightarrow>
                tracks h st s' (h ! a) \<and>
                events s' = events s @ [UpdateStatusCalled ?obj]
            | Inl gerr \<Rightarrow>
                tracks h st s' ?obj \<and>
                events s' = events s @ [UpdateStatusCalled ?obj,
                  HandleError (errorGettingUpdated (Name snapshot) gerr)]"
      by blast
    from nt Some have ne: "err \<noteq> ErrWaitTimeout" by (auto simp: no_timeout_def)
    show ?thesis
    proof (cases "IsConflict err")
      case False
      then show ?thesis using f c g ne Some
        by (cases "Get env (calls s) (Namespace snapshot) (Name snapshot)") simp_all
    next
      case True
      show ?thesis
      proof (cases "Get env (calls s) (Namespace snapshot) (Name snapshot)")
        case (Inr a)
        with g have t: "tracks h st s' (h ! a)"
          and e: "events s' = events s @ [UpdateStatusCalled ?obj]" by simp_all
        from Suc.IH [OF t, of "Some err"] obtain s'' where
          r: "retry_loop (Suc k) ?fn (Some err) s' =
                Inr (fst (UpdateStatus_spec env (\<lambda>u. h ! u) st (Suc k) (calls s') (h ! a)), s'')"
          and e': "events s'' =
                events s' @ snd (UpdateStatus_spec env (\<lambda>u. h ! u) st (Suc k) (calls s') (h ! a))"
          and b: "calls s' < calls s''" "calls s'' \<le> calls s' + Suc k" by blast
        have "retry_loop (Suc (Suc k)) ?fn lastErr s = retry_loop (Suc k) ?fn (Some err) s'"
          using f True by (rule retry_loop_conflict)
        moreover have "UpdateStatus_spec env (\<lambda>u. h ! u) st (Suc (Suc k)) (calls s) snapshot =
            (fst (UpdateStatus_spec env (\<lambda>u. h ! u) st (Suc k) (calls s') (h ! a)),
             UpdateStatusCalled ?obj #
             snd (UpdateStatus_spec env (\<lambda>u. h ! u) st (Suc k) (calls s') (h ! a)))"
          using spec_conflict_refetched [OF Some True _ Inr, of "Suc k" "\<lambda>u. h ! u"] c by simp
        ultimately show ?thesis using r e e' b c
          by (simp del: UpdateStatus_spec.simps retry_loop.simps)
      next
        case (Inl gerr)
        let ?log = "HandleError (errorGettingUpdated (Name snapshot) gerr)"
        from Inl g have t: "tracks h st s' ?obj"
          and e: "events s' = events s @ [UpdateStatusCalled ?obj, ?log]" by simp_all
        from Suc.IH [OF t, of "Some err"] obtain s'' where
          r: "retry_loop (Suc k) ?fn (Some err) s' =
                Inr (fst (UpdateStatus_spec env (\<lambda>u. h ! u) st (Suc k) (calls s') ?obj), s'')"
          and e': "events s'' =
                events s' @ snd (UpdateStatus_spec env (\<lambda>u. h ! u) st (Suc k) (calls s') ?obj)"
          and b: "calls s' < calls s''" "calls s'' \<le> calls s' + Suc k" by blast
        have "retry_loop (Suc (Suc k)) ?fn lastErr s = retry_loop (Suc k) ?fn (Some err) s'"
          using f True by (rule retry_loop_conflict)
        moreover have "UpdateStatus_spec env (\<lambda>u. h ! u) st (Suc (Suc k)) (calls s) snapshot =
            (fst (UpdateStatus_spec env (\<lambda>u. h ! u) st (Suc k) (calls s') ?obj),
             UpdateStatusCalled ?obj # ?log #
             snd (UpdateStatus_spec env (\<lambda>u. h ! u) st (Suc k) (calls s') ?obj))"
          using spec_conflict_not_refetched [OF Some True _ Inl, of "Suc k" "\<lambda>u. h ! u"] c by simp
        ultimately show ?thesis using r e e' b c
          by (simp del: UpdateStatus_spec.simps retry_loop.simps)
      qed
    qed
  qed
qed

lemma writes_append: "writes (xs @ ys) = writes xs @ writes ys"
  by (induction xs rule: writes.induct) simp_all

lemma spec_exhausted:
  fixes env :: "('spec, 'status) Cluster"
  assumes "always_conflict env"
  shows "\<exists>e. fst (UpdateStatus_spec env cache st (Suc k) n snapshot) = Some e \<and> IsConflict e \<and>
           length (writes (snd (UpdateStatus_spec env cache st (Suc k) n snapshot))) = Suc k \<and>
           UpdateStatus env (n + k)
             (last (writes (snd (UpdateStatus_spec env cache st (Suc k) n snapshot)))) = Some e"
proof (induction k arbitrary: n snapshot)
  case 0
  from assms obtain e where "UpdateStatus env n (snapshot\<lparr>Status := st\<rparr>) = Some e" "IsConflict e"
    unfolding always_conflict_def by blast
  then show ?case by (simp add: Let_def split: sum.splits)
next
  case (Suc k)
  let ?obj = "snapshot\<lparr>Status := st\<rparr>"
  from assms obtain e where w: "UpdateStatus env n ?obj = Some e" and c: "IsConflict e"
    unfolding always_conflict_def by blast
  obtain fresh and logged :: "('spec, 'status) HelmChart event list" where g:
    "(case Get env n (Namespace ?obj) (Name ?obj) of
        Inr a \<Rightarrow> (cache a, [])
      | Inl gerr \<Rightarrow> (?obj, [HandleError (errorGettingUpdated (Name ?obj) gerr)])) = (fresh, logged)"
    by (cases "Get env n (Namespace ?obj) (Name ?obj)") simp_all
  have lg: "writes logged = []"
    using g by (cases "Get env n (Namespace ?obj) (Name ?obj)") auto
  let ?rest = "UpdateStatus_spec env cache st (Suc k) (Suc n) fresh"
  have u: "UpdateStatus_spec env cache st (Suc (Suc k)) n snapshot =
             (fst ?rest, UpdateStatusCalled ?obj # logged @ snd ?rest)"
    using w c g by (subst UpdateStatus_spec.simps(2)) (simp add: Let_def split: prod.splits del: UpdateStatus_spec.simps)
  from Suc.IH [of "Suc n" fresh] obtain e' where
    r: "fst ?rest = Some e'" "IsConflict e'" "length (writes (snd ?rest)) = Suc k"
       "UpdateStatus env (Suc n + k) (last (writes (snd ?rest))) = Some e'" by blast
  from r(3) have ne: "writes (snd ?rest) \<noteq> []" by auto
  show ?case unfolding u using r ne lg
    by (simp add: writes_append del: UpdateStatus_spec.simps)
qed

lemma numeral_5_Suc: "(5::nat) = Suc (Suc (Suc (Suc (Suc 0))))"
  by simp


text \<open>
  Which objects are written. The first attempt assigns the status through the pointer
  it was given; a later attempt writes the same object again, or a copy made by
  \<^verbatim>\<open>DeepCopy\<close>. So the object of the caller ends with the new status, and no other
  object of the starting heap is changed: what the lister hands out is copied, never
  written.
\<close>

lemma written_touched: "written h a st s \<Longrightarrow> touched h a st s"
  by (auto simp: written_def touched_def)

lemma func_touched:
  assumes t: "touched h a st s"
    and f: "UpdateChartStatus_func env (Some st) s = Inr (r, s')"
  shows "written h a st s'"
proof -
  let ?h1 = "(heap s)[cur s := (heap s ! cur s)\<lparr>Status := st\<rparr>]"
  from t have a: "a < length h" and l: "length h \<le> length (heap s)"
    and c: "cur s < length (heap s)"
    and o: "\<forall>u < length h. u \<noteq> a \<longrightarrow> heap s ! u = h ! u"
    and m: "(heap s ! a)\<lparr>Status := st\<rparr> = (h ! a)\<lparr>Status := st\<rparr>"
    and w: "cur s = a \<or> length h \<le> cur s \<and> heap s ! a = (h ! a)\<lparr>Status := st\<rparr>"
    by (simp_all add: touched_def)
  have h1a: "?h1 ! a = (h ! a)\<lparr>Status := st\<rparr>"
    using w a l c m by (cases "cur s = a") auto
  have h1o: "\<forall>u < length h. u \<noteq> a \<longrightarrow> ?h1 ! u = h ! u"
    using w o by (auto simp: nth_list_update)
  have cases: "heap s' = ?h1 \<and> cur s' = cur s \<or>
               (\<exists>x. heap s' = ?h1 @ [x] \<and> cur s' = length ?h1)"
    using f c by (auto simp: UpdateChartStatus_func_def Let_def
                       split: option.splits sum.splits if_splits)
  then show ?thesis
  proof
    assume "heap s' = ?h1 \<and> cur s' = cur s"
    then show ?thesis using a l c w h1a h1o by (auto simp: written_def)
  next
    assume "\<exists>x. heap s' = ?h1 @ [x] \<and> cur s' = length ?h1"
    then obtain x where "heap s' = ?h1 @ [x]" "cur s' = length ?h1" by blast
    then show ?thesis using a l h1a h1o by (simp add: written_def nth_append)
  qed
qed

lemma retry_loop_written:
  "touched h a st s \<Longrightarrow>
   retry_loop (Suc k) (UpdateChartStatus_func env (Some st)) lastErr s = Inr (r, s') \<Longrightarrow>
   written h a st s'"
proof (induction k arbitrary: s lastErr)
  case 0
  then show ?case
    by (auto split: sum.splits option.splits if_splits dest: func_touched)
next
  case (Suc k)
  let ?fn = "UpdateChartStatus_func env (Some st)"
  from Suc.prems(2) obtain e s1 where f: "?fn s = Inr (e, s1)"
    by (cases "?fn s") auto
  from func_touched [OF Suc.prems(1) f] have w1: "written h a st s1" .
  show ?case
  proof (cases e)
    case None
    with f Suc.prems(2) w1 show ?thesis by simp
  next
    case (Some err)
    show ?thesis
    proof (cases "IsConflict err")
      case False
      with f Some Suc.prems(2) w1 show ?thesis by (simp split: if_splits)
    next
      case True
      with f Some Suc.prems(2)
      have "retry_loop (Suc k) ?fn (Some err) s1 = Inr (r, s')"
        using retry_loop_conflict [of ?fn s err s1 "Suc k" lastErr] by simp
      from Suc.IH [OF written_touched [OF w1] this] show ?thesis .
    qed
  qed
qed

lemma DefaultRetry_Suc: "DefaultRetry = Suc 4"
  by (simp add: DefaultRetry_def)

lemma UpdateChartStatus_writes_argument:
  assumes "UpdateChartStatus env h (Some a) (Some st) = Inr (r, s')"
  shows "a < length h \<and> length h \<le> length (heap s') \<and>
         heap s' ! a = (h ! a)\<lparr>Status := st\<rparr> \<and>
         (\<forall>u < length h. u \<noteq> a \<longrightarrow> heap s' ! u = h ! u)"
proof -
  from assms have a: "a < length h"
    by (simp add: UpdateChartStatus_def split: if_splits)
  let ?s0 = "\<lparr>heap = h, cur = a, calls = 0, events = []\<rparr>"
  have t: "touched h a st ?s0" using a by (simp add: touched_def)
  from assms a have "retry_loop (Suc 4) (UpdateChartStatus_func env (Some st)) None ?s0 = Inr (r, s')"
    by (simp add: UpdateChartStatus_def RetryOnConflict_retry_loop DefaultRetry_Suc
             del: retry_loop.simps)
  from retry_loop_written [OF t this] show ?thesis by (simp add: written_def)
qed

text \<open>
  C1. For every call of \<^verbatim>\<open>UpdateChartStatus\<close> the object passed in is never mutated in
  place: every status write works on a private copy and leaves the argument of the
  caller unchanged. The code does otherwise: the heap holds \<open>foo\<close> with status 0 at
  address 0, the call is given that address and the status 1, the API server accepts the
  first write; afterwards the object at address 0 has status 1. The comment that opens
  the function says never to modify an object of the store and to copy it first.
\<close>

theorem UpdateChartStatus_mutates_argument:
  "UpdateChartStatus accepting [foo] (Some 0) (Some 1) =
     Inr (None, \<lparr>heap = [foo\<lparr>Status := 1\<rparr>], cur = 0, calls = 1,
                 events = [UpdateStatusCalled (foo\<lparr>Status := 1\<rparr>)]\<rparr>) \<and>
   foo\<lparr>Status := 1\<rparr> \<noteq> foo"
  by (simp add: UpdateChartStatus_def RetryOnConflict_def OnError_def DefaultRetry_def
        numeral_5_Suc UpdateChartStatus_func_def accepting_def foo_def Let_def)


text \<open>
  C9. \<^verbatim>\<open>UpdateChartStatus\<close> retries the status write on a conflict within a bounded
  budget of attempts (five, the default). After a failed write it reads the latest
  version from the cache and the next attempt writes the new status to a fresh copy of
  it; no object of the cache other than the argument is written. A failed read is
  reported to \<^verbatim>\<open>HandleError\<close> and the retries go on with the object at hand. When every
  attempt of the budget conflicts, the error of the last write is returned. Stated as:
  the call returns what the loop of the specification returns, with the same trace, for
  a valid pointer, a lister that returns objects of the heap and a server that does not
  answer with the timeout sentinel.
\<close>

theorem UpdateChartStatus_retries:
  assumes a: "a < length h" and v: "valid_lister env (length h)" and nt: "no_timeout env"
  shows "\<exists>s'. UpdateChartStatus env h (Some a) (Some st) =
                 Inr (fst (UpdateStatus_spec env (\<lambda>u. h ! u) st DefaultRetry 0 (h ! a)), s') \<and>
               events s' = snd (UpdateStatus_spec env (\<lambda>u. h ! u) st DefaultRetry 0 (h ! a)) \<and>
               0 < calls s' \<and> calls s' \<le> DefaultRetry \<and>
               (\<forall>u < length h. u \<noteq> a \<longrightarrow> heap s' ! u = h ! u) \<and>
               (always_conflict env \<longrightarrow>
                  length (writes (events s')) = DefaultRetry \<and>
                  (\<exists>e. UpdateChartStatus env h (Some a) (Some st) = Inr (Some e, s') \<and>
                       IsConflict e \<and>
                       UpdateStatus env (DefaultRetry - 1) (last (writes (events s'))) = Some e))"
proof -
  let ?s0 = "\<lparr>heap = h, cur = a, calls = 0, events = []\<rparr>"
  let ?spec = "UpdateStatus_spec env (\<lambda>u. h ! u) st (Suc 4) 0 (h ! a)"
  have t: "tracks h st ?s0 (h ! a)" using a by (simp add: tracks_def)
  from retry_loop_refines [OF v nt t, of 4 None] obtain s' where
    r: "retry_loop (Suc 4) (UpdateChartStatus_func env (Some st)) None ?s0 = Inr (fst ?spec, s')"
    and e: "events s' = snd ?spec" and c: "0 < calls s'" "calls s' \<le> Suc 4"
    by auto
  have u: "UpdateChartStatus env h (Some a) (Some st) = Inr (fst ?spec, s')"
    using a r by (simp add: UpdateChartStatus_def RetryOnConflict_retry_loop DefaultRetry_Suc
                       del: retry_loop.simps UpdateStatus_spec.simps)
  from UpdateChartStatus_writes_argument [OF u]
  have fr: "\<forall>u < length h. u \<noteq> a \<longrightarrow> heap s' ! u = h ! u" by simp
  have x: "length (writes (events s')) = Suc 4 \<and>
           (\<exists>e. fst ?spec = Some e \<and> IsConflict e \<and>
                UpdateStatus env 4 (last (writes (events s'))) = Some e)"
    if "always_conflict env"
    using spec_exhausted [OF that, of "\<lambda>u. h ! u" st 4 0 "h ! a"] e
    by (auto simp del: UpdateStatus_spec.simps)
  show ?thesis
    unfolding DefaultRetry_Suc using u e c x fr
    by (intro exI [of _ s']) (auto simp del: UpdateStatus_spec.simps)
qed

text \<open>
  C9 on a heap with \<open>foo\<close> at address 0 and the later version at address 1, which the
  lister returns: against the server that rejects version 7 the second attempt succeeds
  on the copy; against the server that always conflicts the five attempts are used up
  and the conflict of write number 4 is returned.
\<close>

theorem UpdateChartStatus_retries_witness:
  "valid_lister moved_on (length [foo, foo8]) \<and> no_timeout moved_on \<and>
   (\<exists>s'. UpdateChartStatus moved_on [foo, foo8] (Some 0) (Some 1) = Inr (None, s') \<and>
         events s' = [UpdateStatusCalled (foo\<lparr>Status := 1\<rparr>),
                      UpdateStatusCalled (foo8\<lparr>Status := 1\<rparr>)]) \<and>
   always_conflict contended \<and>
   (\<exists>s'. UpdateChartStatus contended [foo, foo8] (Some 0) (Some 1) =
           Inr (Some (StatusError Conflict ''!!!!''), s') \<and>
         writes (events s') =
           [foo\<lparr>Status := 1\<rparr>, foo8\<lparr>Status := 1\<rparr>, foo8\<lparr>Status := 1\<rparr>,
            foo8\<lparr>Status := 1\<rparr>, foo8\<lparr>Status := 1\<rparr>])"
proof -
  have v1: "valid_lister moved_on (length [foo, foo8])"
    and v2: "valid_lister contended (length [foo, foo8])"
    by (simp_all add: valid_lister_def moved_on_def contended_def)
  have n1: "no_timeout moved_on" and n2: "no_timeout contended"
    by (simp_all add: no_timeout_def moved_on_def contended_def)
  have ac: "always_conflict contended"
    by (simp add: always_conflict_def contended_def)
  have a: "0 < length [foo, foo8]" by simp
  have s1: "UpdateStatus_spec moved_on (\<lambda>u. [foo, foo8] ! u) 1 DefaultRetry 0 ([foo, foo8] ! 0) =
              (None, [UpdateStatusCalled (foo\<lparr>Status := 1\<rparr>),
                      UpdateStatusCalled (foo8\<lparr>Status := 1\<rparr>)])"
    by (simp add: DefaultRetry_def numeral_5_Suc moved_on_def foo_def foo8_def Let_def)
  have s2: "UpdateStatus_spec contended (\<lambda>u. [foo, foo8] ! u) 1 DefaultRetry 0 ([foo, foo8] ! 0) =
              (Some (StatusError Conflict ''!!!!''),
               [UpdateStatusCalled (foo\<lparr>Status := 1\<rparr>),
                UpdateStatusCalled (foo8\<lparr>Status := 1\<rparr>),
                UpdateStatusCalled (foo8\<lparr>Status := 1\<rparr>),
                UpdateStatusCalled (foo8\<lparr>Status := 1\<rparr>),
                UpdateStatusCalled (foo8\<lparr>Status := 1\<rparr>)])"
    by (simp add: DefaultRetry_def numeral_5_Suc contended_def foo_def foo8_def Let_def)
  from UpdateChartStatus_retries [OF a v1 n1, of 1] UpdateChartStatus_retries [OF a v2 n2, of 1]
  show ?thesis
    unfolding s1 s2 using v1 n1 ac by auto
qed

end
